theory Spec2Isabelle
  imports Complex_Main
begin

section \<open>JavaScript numbers\<close>

text \<open>
  The component computes with JavaScript numbers (IEEE 754 doubles). A finite number is
  modelled by the real it denotes, and the three special values are kept. The result of
  an operation on finite numbers overflows as a double does under round-to-nearest: from
  \<open>2^1024 - 2^970\<close> on it is an infinity. Below that bound the result is kept exact: the
  rounding of finite results and the sign of zero are not modelled.
\<close>

datatype jsnum = Num real | PosInf | NegInf | NaN

definition overflow_threshold :: real where
  "overflow_threshold = 2 ^ 1024 - 2 ^ 970"

definition fl :: "real \<Rightarrow> jsnum" where
  "fl x = (if overflow_threshold \<le> x then PosInf
           else if x \<le> - overflow_threshold then NegInf
           else Num x)"

fun jneg :: "jsnum \<Rightarrow> jsnum" where
  "jneg (Num a) = Num (- a)"
| "jneg PosInf = NegInf"
| "jneg NegInf = PosInf"
| "jneg NaN = NaN"

fun jadd :: "jsnum \<Rightarrow> jsnum \<Rightarrow> jsnum" where
  "jadd (Num a) (Num b) = fl (a + b)"
| "jadd (Num a) PosInf = PosInf"
| "jadd (Num a) NegInf = NegInf"
| "jadd PosInf (Num b) = PosInf"
| "jadd PosInf PosInf = PosInf"
| "jadd PosInf NegInf = NaN"
| "jadd NegInf (Num b) = NegInf"
| "jadd NegInf NegInf = NegInf"
| "jadd NegInf PosInf = NaN"
| "jadd NaN _ = NaN"
| "jadd _ NaN = NaN"

definition jsub :: "jsnum \<Rightarrow> jsnum \<Rightarrow> jsnum" where
  "jsub a b = jadd a (jneg b)"

fun jmul :: "jsnum \<Rightarrow> jsnum \<Rightarrow> jsnum" where
  "jmul (Num a) (Num b) = fl (a * b)"
| "jmul (Num a) PosInf = (if a = 0 then NaN else if 0 < a then PosInf else NegInf)"
| "jmul (Num a) NegInf = (if a = 0 then NaN else if 0 < a then NegInf else PosInf)"
| "jmul PosInf (Num b) = (if b = 0 then NaN else if 0 < b then PosInf else NegInf)"
| "jmul NegInf (Num b) = (if b = 0 then NaN else if 0 < b then NegInf else PosInf)"
| "jmul PosInf PosInf = PosInf"
| "jmul PosInf NegInf = NegInf"
| "jmul NegInf PosInf = NegInf"
| "jmul NegInf NegInf = PosInf"
| "jmul NaN _ = NaN"
| "jmul _ NaN = NaN"

fun jdiv :: "jsnum \<Rightarrow> jsnum \<Rightarrow> jsnum" where
  "jdiv (Num a) (Num b) =
     (if b = 0 then (if a = 0 then NaN else if 0 < a then PosInf else NegInf)
      else fl (a / b))"
| "jdiv (Num a) PosInf = Num 0"
| "jdiv (Num a) NegInf = Num 0"
| "jdiv PosInf (Num b) = (if 0 \<le> b then PosInf else NegInf)"
| "jdiv NegInf (Num b) = (if 0 \<le> b then NegInf else PosInf)"
| "jdiv PosInf PosInf = NaN"
| "jdiv PosInf NegInf = NaN"
| "jdiv NegInf PosInf = NaN"
| "jdiv NegInf NegInf = NaN"
| "jdiv NaN _ = NaN"
| "jdiv _ NaN = NaN"

text \<open>The comparison \<open>a <= b\<close> of JavaScript: false as soon as one side is \<open>NaN\<close>.\<close>

fun jle :: "jsnum \<Rightarrow> jsnum \<Rightarrow> bool" where
  "jle (Num a) (Num b) = (a \<le> b)"
| "jle (Num a) PosInf = True"
| "jle (Num a) NegInf = False"
| "jle PosInf (Num b) = False"
| "jle PosInf PosInf = True"
| "jle PosInf NegInf = False"
| "jle NegInf (Num b) = True"
| "jle NegInf PosInf = True"
| "jle NegInf NegInf = True"
| "jle NaN _ = False"
| "jle _ NaN = False"

definition Math_min :: "jsnum \<Rightarrow> jsnum \<Rightarrow> jsnum" where
  "Math_min a b = (if a = NaN \<or> b = NaN then NaN else if jle a b then a else b)"

definition Math_max :: "jsnum \<Rightarrow> jsnum \<Rightarrow> jsnum" where
  "Math_max a b = (if a = NaN \<or> b = NaN then NaN else if jle a b then b else a)"


section \<open>Data of the component\<close>

text \<open>A \<open>DOMRect\<close> as returned by \<open>getBoundingClientRect\<close>.\<close>

record rect =
  rect_left :: jsnum
  rect_top :: jsnum
  rect_width :: jsnum
  rect_height :: jsnum

text \<open>The prop \<open>canvasSize: { width, height }\<close>.\<close>

record canvas =
  canvas_width :: jsnum
  canvas_height :: jsnum

record mouse_event =
  clientX :: jsnum
  clientY :: jsnum

record key_event =
  key :: string
  shiftKey :: bool

text \<open>
  What a handler reads from outside the component when it runs: the prop
  \<open>canvasSize\<close>, the prop \<open>previewRef\<close> (absent, or a ref whose \<open>current\<close> is null or
  an element with a bounding rectangle), and the bounding rectangle of the element's own
  node \<open>elementRef.current\<close> (absent when the node is).
\<close>

record env =
  canvasSize :: canvas
  externalPreviewRef :: "rect option option"
  elementRect :: "rect option"

text \<open>
  \<open>externalPreviewRef || previewRef\<close>, then \<open>.current\<close>. The component's own
  \<open>previewRef\<close> is created with \<open>useRef(null)\<close> and attached to no node, so its
  \<open>current\<close> is always null.
\<close>

definition currentPreviewRef :: "env \<Rightarrow> rect option" where
  "currentPreviewRef en = (case externalPreviewRef en of None \<Rightarrow> None | Some cur \<Rightarrow> cur)"

text \<open>
  A listener registered on \<open>document\<close>. The two closures of one pointer-down share
  the gesture number, which stands for their identity; the move closure has captured the
  grab offset and the canvas size of that pointer-down.
\<close>

datatype listener =
    MouseMoveL nat "jsnum \<times> jsnum" canvas
  | MouseUpL nat

fun gesture_of :: "listener \<Rightarrow> nat" where
  "gesture_of (MouseMoveL g off cs) = g"
| "gesture_of (MouseUpL g) = g"

text \<open>Animation: what a tween acts on, a tween, and the children of the animated node.\<close>

datatype target = Element | SpanT nat

record tween =
  tw_target :: target
  tw_from :: "(string \<times> string) list"
  tw_to :: "(string \<times> string) list"
  tw_duration :: real
  tw_ease :: "string option"
  tw_repeat :: nat
  tw_yoyo :: bool
  tw_start :: real

datatype node = TextNode string | Span string string

text \<open>
  The state: the five \<open>useState\<close> cells of the component, whether it is mounted, the
  element's content in the store with the log of \<open>updateTextElement\<close> calls, the
  listeners on \<open>document\<close>, the log of \<open>onPositionUpdate\<close> calls, the timelines that
  have not completed, and the children of the animated node as \<open>playAnimation\<close> last
  rebuilt them.

  The animation flag is there twice. \<open>isAnimating_cell\<close> is the state cell that
  \<open>setIsAnimating\<close> writes. \<open>isAnimating\<close> is the constant of that name in the latest
  render, which the closure \<open>playAnimation\<close> of that render has captured: it takes the
  value of the cell when the component renders again, not before.
\<close>

record world =
  mounted :: bool
  isEditing :: bool
  isDragging :: bool
  dragOffset :: "jsnum \<times> jsnum"
  editContent :: string
  isAnimating :: bool
  isAnimating_cell :: bool
  content :: string
  writes :: "string list"
  listeners :: "listener list"
  gestures :: nat
  positions :: "(jsnum \<times> jsnum) list"
  timelines :: "tween list list"
  gsapChildren :: "node list"

definition init :: "string \<Rightarrow> world" where
  "init c = \<lparr> mounted = True, isEditing = False, isDragging = False,
     dragOffset = (Num 0, Num 0), editContent = c, isAnimating = False,
     isAnimating_cell = False, content = c, writes = [], listeners = [], gestures = 0, positions = [],
     timelines = [], gsapChildren = [TextNode c] \<rparr>"


section \<open>Dragging\<close>

text \<open>
  \<open>handleMouseMove\<close>, the closure built by a pointer-down with its \<open>offset\<close> and
  \<open>canvasSize\<close>: the arguments of the \<open>onPositionUpdate\<close> call it makes, or \<open>None\<close>
  when it returns before.
\<close>

definition handleMouseMove ::
  "jsnum \<times> jsnum \<Rightarrow> canvas \<Rightarrow> env \<Rightarrow> mouse_event \<Rightarrow> (jsnum \<times> jsnum) option" where
  "handleMouseMove offset cs en e =
     (case currentPreviewRef en of
        None \<Rightarrow> None
      | Some r \<Rightarrow>
          let newX = jmul (jsub (jdiv (jsub (jsub (clientX e) (fst offset)) (rect_left r))
                                      (rect_width r)) (Num 0.5)) (canvas_width cs);
              newY = jmul (jsub (jdiv (jsub (jsub (clientY e) (snd offset)) (rect_top r))
                                      (rect_height r)) (Num 0.5)) (canvas_height cs);
              constrainedX = Math_max (jdiv (jneg (canvas_width cs)) (Num 2))
                               (Math_min (jdiv (canvas_width cs) (Num 2)) newX);
              constrainedY = Math_max (jdiv (jneg (canvas_height cs)) (Num 2))
                               (Math_min (jdiv (canvas_height cs) (Num 2)) newY)
          in Some (constrainedX, constrainedY))"

definition addEventListener :: "listener \<Rightarrow> listener list \<Rightarrow> listener list" where
  "addEventListener l ls = (if l \<in> set ls then ls else ls @ [l])"

text \<open>
  \<open>handleMouseUp\<close> of gesture \<open>g\<close>: \<open>setIsDragging(false)\<close> and the removal of the two
  closures of that gesture.
\<close>

definition handleMouseUp :: "nat \<Rightarrow> world \<Rightarrow> world" where
  "handleMouseUp g w =
     w\<lparr> isDragging := False, listeners := filter (\<lambda>l. gesture_of l \<noteq> g) (listeners w) \<rparr>"

text \<open>
  \<open>handleMouseDown\<close>. The calls \<open>e.preventDefault()\<close> and \<open>e.stopPropagation()\<close>
  act on the event only and leave the state alone.
\<close>

definition handleMouseDown :: "env \<Rightarrow> mouse_event \<Rightarrow> world \<Rightarrow> world" where
  "handleMouseDown en e w =
     (if isEditing w then w
      else case elementRect en of
        None \<Rightarrow> w
      | Some r \<Rightarrow>
          let offset =
                (jsub (clientX e) (jadd (rect_left r) (jdiv (rect_width r) (Num 2))),
                 jsub (clientY e) (jadd (rect_top r) (jdiv (rect_height r) (Num 2))));
              g = gestures w
          in w\<lparr> dragOffset := offset, isDragging := True,
                 listeners := addEventListener (MouseUpL g)
                   (addEventListener (MouseMoveL g offset (canvasSize en)) (listeners w)),
                 gestures := Suc g \<rparr>)"


section \<open>Inline editing\<close>

definition handleDoubleClick :: "world \<Rightarrow> world" where
  "handleDoubleClick w = w\<lparr> isEditing := True, editContent := content w \<rparr>"

definition handleTextChange :: "string \<Rightarrow> world \<Rightarrow> world" where
  "handleTextChange v w = w\<lparr> editContent := v \<rparr>"

text \<open>
  \<open>handleTextSave\<close>: \<open>updateTextElement(track.id, element.id, { content: editContent })\<close>
  replaces the stored content and is logged, then \<open>setIsEditing(false)\<close>.
\<close>

definition handleTextSave :: "world \<Rightarrow> world" where
  "handleTextSave w =
     w\<lparr> content := editContent w, writes := writes w @ [editContent w], isEditing := False \<rparr>"

text \<open>
  \<open>handleKeyDown\<close>, with whether it called \<open>e.preventDefault()\<close>. The two \<open>if\<close>s
  follow each other as in the source; \<open>element.content\<close> in the second is the prop of the
  render the handler belongs to.
\<close>

definition handleKeyDown :: "key_event \<Rightarrow> world \<Rightarrow> world \<times> bool" where
  "handleKeyDown e w =
     (let (w1, prevented) =
            (if key e = ''Enter'' \<and> \<not> shiftKey e then (handleTextSave w, True) else (w, False));
          w2 = (if key e = ''Escape''
                then w1\<lparr> editContent := content w, isEditing := False \<rparr> else w1)
      in (w2, prevented))"

text \<open>
  The textarea is a controlled input showing \<open>editContent\<close>. When its key handler has
  not prevented the default action of Enter, the browser replaces the selection
  (\<open>selectionStart\<close> to \<open>selectionEnd\<close>) by a line break and reports the new value
  through \<open>onChange\<close>.
\<close>

definition insertLineBreak :: "nat \<Rightarrow> nat \<Rightarrow> string \<Rightarrow> string" where
  "insertLineBreak s t v = take s v @ CHR 0x0A # drop t v"

definition textareaKeyDown :: "key_event \<Rightarrow> nat \<Rightarrow> nat \<Rightarrow> world \<Rightarrow> world" where
  "textareaKeyDown e s t w =
     (case handleKeyDown e w of
        (w', prevented) \<Rightarrow>
          if \<not> prevented \<and> key e = ''Enter''
          then handleTextChange (insertLineBreak s t (editContent w)) w'
          else w')"


section \<open>Animation\<close>

text \<open>
  A timeline is the list of its tweens. The library's part: a tween lasts its duration
  once more per repeat, a timeline lasts until its last tween ends, \<open>fromTo\<close> and \<open>to\<close>
  without a position append at the end of the timeline, and \<open>to\<close> with a number places
  the tween at that time.
\<close>

definition tw_end :: "tween \<Rightarrow> real" where
  "tw_end t = tw_start t + tw_duration t * real (Suc (tw_repeat t))"

definition tl_duration :: "tween list \<Rightarrow> real" where
  "tl_duration tln = foldr (\<lambda>t d. max (tw_end t) d) tln 0"

definition tl_fromTo ::
  "tween list \<Rightarrow> target \<Rightarrow> (string \<times> string) list \<Rightarrow> (string \<times> string) list \<Rightarrow> real \<Rightarrow> string
     \<Rightarrow> tween list" where
  "tl_fromTo tln tg fr tv d ea =
     tln @ [\<lparr> tw_target = tg, tw_from = fr, tw_to = tv, tw_duration = d, tw_ease = Some ea,
             tw_repeat = 0, tw_yoyo = False, tw_start = tl_duration tln \<rparr>]"

definition tl_to ::
  "tween list \<Rightarrow> target \<Rightarrow> (string \<times> string) list \<Rightarrow> real \<Rightarrow> string option \<Rightarrow> nat \<Rightarrow> bool
     \<Rightarrow> real option \<Rightarrow> tween list" where
  "tl_to tln tg tv d ea rp yo pos =
     tln @ [\<lparr> tw_target = tg, tw_from = [], tw_to = tv, tw_duration = d, tw_ease = ea,
             tw_repeat = rp, tw_yoyo = yo,
             tw_start = (case pos of None \<Rightarrow> tl_duration tln | Some p \<Rightarrow> p) \<rparr>]"

text \<open>
  The node \<open>gsapRef.current\<close> is rendered in the branch of the component that shows the
  text, not in the branch that shows the textarea.
\<close>

definition gsapRef_current :: "world \<Rightarrow> bool" where
  "gsapRef_current w = (mounted w \<and> \<not> isEditing w)"

text \<open>
  \<open>playAnimation\<close> below is the closure of the latest render. Its guard reads the
  captured constant \<open>isAnimating\<close>; \<open>setIsAnimating(true)\<close> writes the cell.

  The body of \<open>chars.forEach((char, i) => ...)\<close> of the typewriter case: a span holding
  the character with opacity \<open>'0'\<close> is appended to the node, and a tween of that span is
  placed at \<open>i * 0.05\<close>.
\<close>

fun typewriter_forEach ::
  "string \<Rightarrow> nat \<Rightarrow> node list \<times> tween list \<Rightarrow> node list \<times> tween list" where
  "typewriter_forEach [] i acc = acc"
| "typewriter_forEach (char # chars) i (children, tln) =
     typewriter_forEach chars (Suc i)
       (children @ [Span [char] ''0''],
        tl_to tln (SpanT i) [(''opacity'', ''1'')] 0.05 (Some ''none'') 0 False
          (Some (real i * 0.05)))"

definition playAnimation :: "string \<Rightarrow> world \<Rightarrow> world" where
  "playAnimation animation w =
     (if \<not> gsapRef_current w \<or> isAnimating w then w
      else
        let (children, tln) =
          (if animation = ''fadeIn'' then
             (gsapChildren w,
              tl_fromTo [] Element [(''opacity'', ''0''), (''scale'', ''0.8'')]
                [(''opacity'', ''1''), (''scale'', ''1'')] 0.5 ''back.out(1.7)'')
           else if animation = ''slideIn'' then
             (gsapChildren w,
              tl_fromTo [] Element [(''x'', ''-100''), (''opacity'', ''0'')]
                [(''x'', ''0''), (''opacity'', ''1'')] 0.5 ''power2.out'')
           else if animation = ''bounce'' then
             (gsapChildren w,
              tl_fromTo [] Element [(''y'', ''-50''), (''opacity'', ''0'')]
                [(''y'', ''0''), (''opacity'', ''1'')] 0.6 ''bounce.out'')
           else if animation = ''typewriter'' then
             typewriter_forEach (content w) 0 ([], [])
           else if animation = ''glow'' then
             (gsapChildren w,
              tl_to [] Element
                [(''textShadow'', ''0 0 20px #fff, 0 0 30px #fff, 0 0 40px #fff'')]
                0.3 None 1 True None)
           else (gsapChildren w, []))
        in w\<lparr> isAnimating_cell := True, timelines := timelines w @ [tln],
               gsapChildren := children \<rparr>)"

text \<open>
  A render of the component: the constant \<open>isAnimating\<close> and the closures that capture
  it are made anew from the cell.

  The \<open>onComplete\<close> of the \<open>i\<close>-th timeline still playing: \<open>setIsAnimating(false)\<close>,
  and the timeline is over.
\<close>

definition render :: "world \<Rightarrow> world" where
  "render w = w\<lparr> isAnimating := isAnimating_cell w \<rparr>"

definition onComplete :: "nat \<Rightarrow> world \<Rightarrow> world" where
  "onComplete i w =
     (if i < length (timelines w)
      then w\<lparr> isAnimating_cell := False,
              timelines := take i (timelines w) @ drop (Suc i) (timelines w) \<rparr>
      else w)"


section \<open>Events\<close>

text \<open>
  The handlers that React calls for an event of the DOM (double-click, pointer-down,
  change, key, blur) see the state the previous event left: React renders again after
  each such event, before the next one is handled. The handlers of the element's node
  exist while the component is mounted, those of the textarea while it is mounted and
  editing (the textarea is rendered in that branch only); a double-click or pointer-down
  inside the textarea bubbles to the element's node. Listeners on \<open>document\<close> run for as
  long as they are registered. Unmounting runs the cleanups of the component's effects,
  and its only effect (focus and select on entering the edit) returns none.

  \<open>playAnimation\<close> is not a handler of a DOM event: it is a callback, and whoever holds
  the closure of a render may call it several times before the component renders again.
  So \<open>Trigger\<close> is a call of the closure of the latest render, and the render that
  refreshes the captured \<open>isAnimating\<close> is an event of its own, \<open>Render\<close>, which happens
  when React gets to it. \<open>run_rendered\<close> runs a list of events with a render before each
  of them.
\<close>

datatype event =
    DoubleClick
  | MouseDown mouse_event
  | Change string
  | KeyDown key_event nat nat
  | Blur
  | DocMouseMove mouse_event
  | DocMouseUp
  | Trigger string
  | Complete nat
  | Render
  | Unmount

fun move_calls :: "env \<Rightarrow> mouse_event \<Rightarrow> listener list \<Rightarrow> (jsnum \<times> jsnum) list" where
  "move_calls en e [] = []"
| "move_calls en e (MouseMoveL g off cs # ls) =
     (case handleMouseMove off cs en e of
        None \<Rightarrow> move_calls en e ls
      | Some p \<Rightarrow> p # move_calls en e ls)"
| "move_calls en e (MouseUpL g # ls) = move_calls en e ls"

fun up_calls :: "listener list \<Rightarrow> world \<Rightarrow> world" where
  "up_calls [] w = w"
| "up_calls (MouseUpL g # ls) w = up_calls ls (handleMouseUp g w)"
| "up_calls (MouseMoveL g off cs # ls) w = up_calls ls w"

fun dispatch :: "env \<Rightarrow> event \<Rightarrow> world \<Rightarrow> world" where
  "dispatch en DoubleClick w = (if mounted w then handleDoubleClick w else w)"
| "dispatch en (MouseDown e) w = (if mounted w then handleMouseDown en e w else w)"
| "dispatch en (Change v) w =
     (if mounted w \<and> isEditing w then handleTextChange v w else w)"
| "dispatch en (KeyDown e s t) w =
     (if mounted w \<and> isEditing w then textareaKeyDown e s t w else w)"
| "dispatch en Blur w = (if mounted w \<and> isEditing w then handleTextSave w else w)"
| "dispatch en (DocMouseMove e) w =
     w\<lparr> positions := positions w @ move_calls en e (listeners w) \<rparr>"
| "dispatch en DocMouseUp w = up_calls (listeners w) w"
| "dispatch en (Trigger a) w = playAnimation a w"
| "dispatch en (Complete i) w = onComplete i w"
| "dispatch en Render w = (if mounted w then render w else w)"
| "dispatch en Unmount w = w\<lparr> mounted := False \<rparr>"

fun run :: "world \<Rightarrow> (env \<times> event) list \<Rightarrow> world" where
  "run w [] = w"
| "run w ((en, ev) # es) = run (dispatch en ev w) es"

fun run_rendered :: "world \<Rightarrow> (env \<times> event) list \<Rightarrow> world" where
  "run_rendered w [] = w"
| "run_rendered w ((en, ev) # es) = run_rendered (dispatch en ev (dispatch en Render w)) es"


section \<open>Vocabulary of the statements\<close>

text \<open>A delivered position lies within the canvas bounds, compared as JavaScript does.\<close>

definition within_canvas :: "canvas \<Rightarrow> jsnum \<times> jsnum \<Rightarrow> bool" where
  "within_canvas cs p =
     (jle (jdiv (jneg (canvas_width cs)) (Num 2)) (fst p) \<and>
      jle (fst p) (jdiv (canvas_width cs) (Num 2)) \<and>
      jle (jdiv (jneg (canvas_height cs)) (Num 2)) (snd p) \<and>
      jle (snd p) (jdiv (canvas_height cs) (Num 2)))"

text \<open>The events that commit an edit: loss of focus, and Enter without Shift.\<close>

fun commit_event :: "event \<Rightarrow> bool" where
  "commit_event Blur = True"
| "commit_event (KeyDown e s t) = (key e = ''Enter'' \<and> \<not> shiftKey e)"
| "commit_event _ = False"

text \<open>The reveal unit of index \<open>i\<close>, as the typewriter case builds it.\<close>

definition reveal :: "nat \<Rightarrow> tween" where
  "reveal i = \<lparr> tw_target = SpanT i, tw_from = [], tw_to = [(''opacity'', ''1'')],
      tw_duration = 0.05, tw_ease = Some ''none'', tw_repeat = 0, tw_yoyo = False,
      tw_start = real i * 0.05 \<rparr>"

text \<open>At most one timeline is playing, and the cell of the flag is set while one is.\<close>

definition one_playback :: "world \<Rightarrow> bool" where
  "one_playback w =
     (length (timelines w) \<le> 1 \<and> (isAnimating_cell w \<or> timelines w = []))"

text \<open>Every listener on the document has the release closure of its gesture beside it.\<close>

definition paired :: "listener list \<Rightarrow> bool" where
  "paired ls = (\<forall>l \<in> set ls. MouseUpL (gesture_of l) \<in> set ls)"

text \<open>
  Concrete inputs: a 1920 x 1080 canvas previewed at half scale, the element's node
  centred on (480, 270), a pointer-down on that centre, a move to (1000, 0), and three
  key presses; the same surroundings with the preview surface not displayed, whose
  bounding rectangle is then all zero, and a move to the origin.
\<close>

definition example_env :: env where
  "example_env =
     \<lparr> canvasSize = \<lparr> canvas_width = Num 1920, canvas_height = Num 1080 \<rparr>,
       externalPreviewRef = Some (Some \<lparr> rect_left = Num 0, rect_top = Num 0,
         rect_width = Num 960, rect_height = Num 540 \<rparr>),
       elementRect = Some \<lparr> rect_left = Num 470, rect_top = Num 260,
         rect_width = Num 20, rect_height = Num 20 \<rparr> \<rparr>"

definition example_down :: mouse_event where
  "example_down = \<lparr> clientX = Num 480, clientY = Num 270 \<rparr>"

definition example_move :: mouse_event where
  "example_move = \<lparr> clientX = Num 1000, clientY = Num 0 \<rparr>"

definition hidden_env :: env where
  "hidden_env =
     \<lparr> canvasSize = \<lparr> canvas_width = Num 1920, canvas_height = Num 1080 \<rparr>,
       externalPreviewRef = Some (Some \<lparr> rect_left = Num 0, rect_top = Num 0,
         rect_width = Num 0, rect_height = Num 0 \<rparr>),
       elementRect = Some \<lparr> rect_left = Num 470, rect_top = Num 260,
         rect_width = Num 20, rect_height = Num 20 \<rparr> \<rparr>"

definition origin_move :: mouse_event where
  "origin_move = \<lparr> clientX = Num 0, clientY = Num 0 \<rparr>"

definition plainEnter :: key_event where
  "plainEnter = \<lparr> key = ''Enter'', shiftKey = False \<rparr>"

definition shiftEnter :: key_event where
  "shiftEnter = \<lparr> key = ''Enter'', shiftKey = True \<rparr>"

definition escape :: key_event where
  "escape = \<lparr> key = ''Escape'', shiftKey = False \<rparr>"


section \<open>Dragging: the delivered position\<close>

lemma overflow_threshold_pos: "0 < overflow_threshold"
  by (simp add: overflow_threshold_def)

lemma fl_not_NaN: "fl x \<noteq> NaN"
  by (simp add: fl_def)

lemma fl_half_bounds:
  assumes "0 \<le> c"
  shows "(fl (- c / 2) = NegInf \<and> fl (c / 2) = PosInf)
       \<or> (fl (- c / 2) = Num (- c / 2) \<and> fl (c / 2) = Num (c / 2))"
  using assms overflow_threshold_pos by (auto simp add: fl_def)

lemma clamp_within:
  assumes c: "0 \<le> c"
    and r: "Math_max (jdiv (jneg (Num c)) (Num 2)) (Math_min (jdiv (Num c) (Num 2)) v) \<noteq> NaN"
  shows "jle (jdiv (jneg (Num c)) (Num 2))
           (Math_max (jdiv (jneg (Num c)) (Num 2)) (Math_min (jdiv (Num c) (Num 2)) v))
       \<and> jle (Math_max (jdiv (jneg (Num c)) (Num 2)) (Math_min (jdiv (Num c) (Num 2)) v))
           (jdiv (Num c) (Num 2))"
proof -
  have lo: "jdiv (jneg (Num c)) (Num 2) = fl (- c / 2)" by simp
  have hi: "jdiv (Num c) (Num 2) = fl (c / 2)" by simp
  have v: "v \<noteq> NaN" using r by (auto simp add: Math_max_def Math_min_def)
  from fl_half_bounds [OF c] show ?thesis
  proof
    assume "fl (- c / 2) = NegInf \<and> fl (c / 2) = PosInf"
    then show ?thesis unfolding lo hi using v
      by (cases v) (simp_all add: Math_max_def Math_min_def)
  next
    assume "fl (- c / 2) = Num (- c / 2) \<and> fl (c / 2) = Num (c / 2)"
    then show ?thesis unfolding lo hi using v c
      by (cases v) (auto simp add: Math_max_def Math_min_def)
  qed
qed

text \<open>
  The clamp does its work on every number: for a canvas of finite, non-negative width
  and height, a delivered position whose coordinates are not \<open>NaN\<close> lies within the
  canvas bounds.
\<close>

lemma handleMouseMove_within_unless_NaN:
  assumes h: "handleMouseMove off \<lparr> canvas_width = Num cw, canvas_height = Num ch \<rparr> en e
      = Some (x, y)"
    and cw: "0 \<le> cw" and ch: "0 \<le> ch" and x: "x \<noteq> NaN" and y: "y \<noteq> NaN"
  shows "within_canvas \<lparr> canvas_width = Num cw, canvas_height = Num ch \<rparr> (x, y)"
proof -
  obtain r where r: "currentPreviewRef en = Some r"
    using h by (cases "currentPreviewRef en") (simp_all add: handleMouseMove_def)
  have "\<exists>vx. x = Math_max (jdiv (jneg (Num cw)) (Num 2)) (Math_min (jdiv (Num cw) (Num 2)) vx)"
    using h r by (auto simp add: handleMouseMove_def Let_def simp del: jdiv.simps jneg.simps)
  then obtain vx where
    ex: "x = Math_max (jdiv (jneg (Num cw)) (Num 2)) (Math_min (jdiv (Num cw) (Num 2)) vx)" ..
  have "\<exists>vy. y = Math_max (jdiv (jneg (Num ch)) (Num 2)) (Math_min (jdiv (Num ch) (Num 2)) vy)"
    using h r by (auto simp add: handleMouseMove_def Let_def simp del: jdiv.simps jneg.simps)
  then obtain vy where
    ey: "y = Math_max (jdiv (jneg (Num ch)) (Num 2)) (Math_min (jdiv (Num ch) (Num 2)) vy)" ..
  from clamp_within [OF cw, of vx] clamp_within [OF ch, of vy] x y
  show ?thesis
    unfolding within_canvas_def ex ey by (simp del: jdiv.simps jneg.simps)
qed

lemma mounted_init: "mounted (init c)"
  by (simp add: init_def)

lemma example_gesture:
  "handleMouseDown example_env example_down (init ''A'')
     = (init ''A'')\<lparr> dragOffset := (Num 0, Num 0), isDragging := True,
         listeners := [MouseMoveL 0 (Num 0, Num 0) (canvasSize example_env), MouseUpL 0],
         gestures := Suc 0 \<rparr>"
  by (simp add: init_def handleMouseDown_def example_env_def example_down_def
      addEventListener_def jsub_def Let_def fl_def
      overflow_threshold_def)

lemma example_move_call:
  "handleMouseMove (Num 0, Num 0) (canvasSize example_env) example_env example_move
     = Some (Num 960, Num (- 540))"
  by (simp add: handleMouseMove_def example_env_def example_move_def currentPreviewRef_def
      jsub_def Math_min_def Math_max_def fl_def overflow_threshold_def)

text \<open>
  \<open>NaN\<close> also arises from an overflow: a canvas of width and height 0, a reference
  rectangle of width and height \<open>1e-320\<close> and the pointer at (1, 1) give a quotient
  beyond the doubles, hence \<open>Infinity\<close>, and \<open>Infinity * 0\<close>.
\<close>

lemma handleMouseMove_overflow:
  "handleMouseMove (Num 0, Num 0) \<lparr> canvas_width = Num 0, canvas_height = Num 0 \<rparr>
     \<lparr> canvasSize = \<lparr> canvas_width = Num 0, canvas_height = Num 0 \<rparr>,
       externalPreviewRef = Some (Some \<lparr> rect_left = Num 0, rect_top = Num 0,
         rect_width = Num (1 / 10 ^ 320), rect_height = Num (1 / 10 ^ 320) \<rparr>),
       elementRect = None \<rparr>
     \<lparr> clientX = Num 1, clientY = Num 1 \<rparr>
     = Some (NaN, NaN)"
  by (simp add: handleMouseMove_def currentPreviewRef_def jsub_def Math_min_def Math_max_def
      fl_def overflow_threshold_def)

text \<open>
  C1. The claim asks that every delivered position lies within the canvas bounds, for
  all rectangles. \<open>handleMouseMove\<close> clamps with \<open>Math.min\<close> and \<open>Math.max\<close>, which
  hand \<open>NaN\<close> through, and divides by the extent of the reference rectangle without a
  test. With the preview surface not displayed (its rectangle is all zero), grab offset
  (0, 0) and the pointer at the origin, the quotient is \<open>0 / 0\<close>: the position computed
  and delivered to \<open>onPositionUpdate\<close> is \<open>(NaN, NaN)\<close>, which is not within the
  bounds. In the documented example (rectangle \<open>{0, 0, 960, 540}\<close>, pointer at
  (1000, 0)) the delivered X is 960, as the claim says.
\<close>

theorem handleMouseMove_delivers_NaN:
  "handleMouseMove (Num 0, Num 0) (canvasSize hidden_env) hidden_env origin_move
     = Some (NaN, NaN)
   \<and> \<not> within_canvas (canvasSize hidden_env) (NaN, NaN)
   \<and> positions (run (init ''A'')
        [(example_env, MouseDown example_down), (hidden_env, DocMouseMove origin_move)])
       = [(NaN, NaN)]
   \<and> handleMouseMove (Num 0, Num 0) (canvasSize example_env) example_env example_move
       = Some (Num 960, Num (- 540))"
proof -
  have n: "handleMouseMove (Num 0, Num 0) (canvasSize example_env) hidden_env origin_move
     = Some (NaN, NaN)"
    by (simp add: handleMouseMove_def example_env_def hidden_env_def origin_move_def
        currentPreviewRef_def jsub_def Math_min_def Math_max_def fl_def overflow_threshold_def)
  have c: "canvasSize hidden_env = canvasSize example_env"
    by (simp add: hidden_env_def example_env_def)
  have m: "mounted (init ''A'')" "positions (init ''A'') = []" by (simp_all add: init_def)
  have w: "\<not> within_canvas (canvasSize example_env) (NaN, NaN)"
    by (simp add: within_canvas_def)
  have p: "positions (run (init ''A'')
        [(example_env, MouseDown example_down), (hidden_env, DocMouseMove origin_move)])
       = [(NaN, NaN)]"
    by (simp add: m example_gesture n)
  show ?thesis unfolding c using n w p example_move_call by simp
qed


section \<open>Dragging: starting and ending a gesture\<close>

text \<open>
  C9. While the edit session is editing, a pointer-down on the element starts no drag:
  the whole state is left as it was, so the session does not become active, no grab
  offset is stored, no listener is registered on the document and no position is
  delivered.
\<close>

theorem no_drag_while_editing:
  assumes "isEditing w"
  shows "dispatch en (MouseDown e) w = w
       \<and> isDragging (dispatch en (MouseDown e) w) = isDragging w
       \<and> dragOffset (dispatch en (MouseDown e) w) = dragOffset w
       \<and> listeners (dispatch en (MouseDown e) w) = listeners w
       \<and> positions (dispatch en (MouseDown e) w) = positions w"
  using assms by (simp add: handleMouseDown_def)

theorem no_drag_while_editing_witness:
  "dispatch example_env (MouseDown example_down) (dispatch example_env DoubleClick (init ''A''))
     = dispatch example_env DoubleClick (init ''A'')
   \<and> listeners (dispatch example_env (MouseDown example_down)
        (dispatch example_env DoubleClick (init ''A''))) = []"
proof -
  have i: "isEditing (dispatch example_env DoubleClick (init ''A''))"
    by (simp add: init_def handleDoubleClick_def)
  have l: "listeners (dispatch example_env DoubleClick (init ''A'')) = []"
    by (simp add: init_def handleDoubleClick_def)
  from no_drag_while_editing [OF i, of example_env example_down, unfolded l]
  show ?thesis by blast
qed

text \<open>
  C10. A pointer-down that arrives while not editing, when the bounding rectangle of the
  element's own node is unavailable, changes nothing: no grab offset is stored, the
  session does not become active and no listener is registered, so a later move signal
  delivers no position on account of that gesture.
\<close>

theorem no_drag_without_element_rect:
  assumes "\<not> isEditing w" and "elementRect en = None"
  shows "dispatch en (MouseDown e) w = w
       \<and> isDragging (dispatch en (MouseDown e) w) = isDragging w
       \<and> dragOffset (dispatch en (MouseDown e) w) = dragOffset w
       \<and> listeners (dispatch en (MouseDown e) w) = listeners w
       \<and> (listeners w = [] \<longrightarrow>
            positions (dispatch en' (DocMouseMove e') (dispatch en (MouseDown e) w))
              = positions w)"
  using assms by (simp add: handleMouseDown_def)

theorem no_drag_without_element_rect_witness:
  "dispatch (example_env\<lparr> elementRect := None \<rparr>) (MouseDown example_down) (init ''A'')
     = init ''A''
   \<and> positions (dispatch example_env (DocMouseMove example_move)
        (dispatch (example_env\<lparr> elementRect := None \<rparr>) (MouseDown example_down) (init ''A'')))
     = []"
proof -
  have i: "\<not> isEditing (init ''A'')" "elementRect (example_env\<lparr> elementRect := None \<rparr>) = None"
    by (simp_all add: init_def)
  have l: "listeners (init ''A'') = []" "positions (init ''A'') = []"
    by (simp_all add: init_def)
  from no_drag_without_element_rect [OF i, of example_down example_env example_move] l
  show ?thesis by simp
qed

text \<open>
  The release path: in every state reached from the initial one, a release signal
  leaves no listener on the document, and a move signal after it delivers nothing.
\<close>

lemma listeners_up_calls:
  "listeners (up_calls ls w)
     = filter (\<lambda>l. MouseUpL (gesture_of l) \<notin> set ls) (listeners w)"
proof (induction ls w rule: up_calls.induct)
  case (1 w)
  then show ?case by simp
next
  case (2 g ls w)
  have "listeners (up_calls (MouseUpL g # ls) w)
      = filter (\<lambda>l. MouseUpL (gesture_of l) \<notin> set ls) (listeners (handleMouseUp g w))"
    using 2 by simp
  also have "\<dots> = filter (\<lambda>l. MouseUpL (gesture_of l) \<notin> set (MouseUpL g # ls)) (listeners w)"
    by (auto simp add: handleMouseUp_def intro: filter_cong)
  finally show ?case .
next
  case (3 g off cs ls w)
  then show ?case by simp
qed

lemma up_calls_positions: "positions (up_calls ls w) = positions w"
  by (induction ls w rule: up_calls.induct) (simp_all add: handleMouseUp_def)

lemma release_clears_paired:
  assumes "paired (listeners w)"
  shows "listeners (dispatch en DocMouseUp w) = []"
proof -
  have "filter (\<lambda>l. MouseUpL (gesture_of l) \<notin> set (listeners w)) (listeners w) = []"
    using assms by (auto simp add: paired_def filter_empty_conv)
  then show ?thesis by (simp add: listeners_up_calls)
qed

lemma set_addEventListener: "set (addEventListener l ls) = insert l (set ls)"
  by (auto simp add: addEventListener_def)

lemma paired_handleMouseDown:
  assumes "paired (listeners w)"
  shows "paired (listeners (handleMouseDown en e w))"
  using assms
  by (auto simp add: handleMouseDown_def Let_def paired_def set_addEventListener
      split: option.split)

lemma listeners_textareaKeyDown: "listeners (textareaKeyDown e s t w) = listeners w"
  by (simp add: textareaKeyDown_def handleKeyDown_def handleTextSave_def handleTextChange_def)

lemma listeners_playAnimation: "listeners (playAnimation a w) = listeners w"
proof (cases "\<not> gsapRef_current w \<or> isAnimating w")
  case True
  then show ?thesis by (simp add: playAnimation_def)
next
  case False
  then have c: "(\<not> gsapRef_current w \<or> isAnimating w) = False" by simp
  show ?thesis
    unfolding playAnimation_def Let_def c if_False case_prod_beta by simp
qed

lemma paired_dispatch:
  assumes "paired (listeners w)"
  shows "paired (listeners (dispatch en ev w))"
proof (cases ev)
  case (MouseDown e)
  with assms show ?thesis by (simp add: paired_handleMouseDown)
next
  case DocMouseUp
  with release_clears_paired [OF assms, of en] show ?thesis by (simp add: paired_def)
qed (use assms in \<open>simp_all add: handleDoubleClick_def handleTextChange_def
      listeners_textareaKeyDown handleTextSave_def listeners_playAnimation onComplete_def
      render_def\<close>)

lemma paired_run: "paired (listeners w) \<Longrightarrow> paired (listeners (run w es))"
proof (induction es arbitrary: w)
  case Nil
  then show ?case by simp
next
  case (Cons x es)
  obtain en ev where x: "x = (en, ev)" by (cases x)
  from Cons.prems have "paired (listeners (dispatch en ev w))" by (rule paired_dispatch)
  from Cons.IH [OF this] show ?case by (simp add: x)
qed

lemma release_removes_listeners:
  "listeners (dispatch en DocMouseUp (run (init c) es)) = []
   \<and> positions (dispatch en' (DocMouseMove e) (dispatch en DocMouseUp (run (init c) es)))
       = positions (run (init c) es)"
proof -
  have "paired (listeners (init c))" by (simp add: paired_def init_def)
  then have "paired (listeners (run (init c) es))" by (rule paired_run)
  then have l: "listeners (dispatch en DocMouseUp (run (init c) es)) = []"
    by (rule release_clears_paired)
  have p: "positions (dispatch en DocMouseUp (run (init c) es)) = positions (run (init c) es)"
    by (simp add: up_calls_positions)
  show ?thesis using l p by simp
qed

text \<open>
  C4. The claim asks that the listeners on the document are removed when the drag ends
  by release and when the component is torn down, and that no position is delivered
  afterwards. The component removes them in \<open>handleMouseUp\<close> only. After a pointer-down
  and an unmount both listeners are still registered, and the next move signal delivers
  the position (960, -540); after a pointer-down and a release none is registered and
  the same move signal delivers nothing, as \<open>release_removes_listeners\<close> shows of every
  release.
\<close>

theorem teardown_keeps_listeners:
  "listeners (run (init ''A'')
       [(example_env, MouseDown example_down), (example_env, Unmount)])
     = [MouseMoveL 0 (Num 0, Num 0) (canvasSize example_env), MouseUpL 0]
   \<and> positions (run (init ''A'')
       [(example_env, MouseDown example_down), (example_env, Unmount),
        (example_env, DocMouseMove example_move)])
     = [(Num 960, Num (- 540))]
   \<and> listeners (run (init ''A'')
       [(example_env, MouseDown example_down), (example_env, DocMouseUp)]) = []
   \<and> positions (run (init ''A'')
       [(example_env, MouseDown example_down), (example_env, DocMouseUp),
        (example_env, DocMouseMove example_move)]) = []"
  by (simp add: mounted_init example_gesture example_move_call handleMouseUp_def)
    (simp add: init_def)


section \<open>Inline editing: commit, cancel, newline\<close>

lemma handleKeyDown_Enter:
  "key e = ''Enter'' \<Longrightarrow> \<not> shiftKey e \<Longrightarrow> handleKeyDown e w = (handleTextSave w, True)"
  by (simp add: handleKeyDown_def)

lemma handleKeyDown_ShiftEnter:
  "key e = ''Enter'' \<Longrightarrow> shiftKey e \<Longrightarrow> handleKeyDown e w = (w, False)"
  by (simp add: handleKeyDown_def)

lemma handleKeyDown_Escape:
  "key e = ''Escape'' \<Longrightarrow>
   handleKeyDown e w = (w\<lparr> editContent := content w, isEditing := False \<rparr>, False)"
  by (simp add: handleKeyDown_def)

lemma commit_event_dispatch:
  "commit_event ev \<Longrightarrow> mounted u \<Longrightarrow> isEditing u \<Longrightarrow> dispatch en ev u = handleTextSave u"
  by (cases ev) (simp_all add: textareaKeyDown_def handleKeyDown_Enter)

lemma commit_event_idle:
  "commit_event ev \<Longrightarrow> \<not> isEditing u \<Longrightarrow> dispatch en ev u = u"
  by (cases ev) simp_all

lemma run_append: "run w (es @ fs) = run (run w es) fs"
  by (induction es arbitrary: w) auto

lemma run_Changes:
  "mounted w \<Longrightarrow> isEditing w \<Longrightarrow>
   mounted (run w (map (\<lambda>v. (en, Change v)) vs))
   \<and> isEditing (run w (map (\<lambda>v. (en, Change v)) vs))
   \<and> content (run w (map (\<lambda>v. (en, Change v)) vs)) = content w
   \<and> writes (run w (map (\<lambda>v. (en, Change v)) vs)) = writes w"
  by (induction vs arbitrary: w) (simp_all add: handleTextChange_def)

text \<open>
  C2. A commit of an edit session (Enter without Shift, or loss of focus) writes the
  current draft to the store exactly once and returns the session to idle, and a second
  commit signal right after it writes nothing more. Starting from stored content
  \<open>"A"\<close>, entering the edit, changing the draft to \<open>"AB"\<close> and committing by both
  signals in sequence, in either order, leaves stored content \<open>"AB"\<close> after exactly one
  write.
\<close>

theorem commit_writes_once:
  assumes m: "mounted w" and ed: "isEditing w"
    and ev: "commit_event ev" and ev': "commit_event ev'"
  shows "content (dispatch en ev w) = editContent w
       \<and> writes (dispatch en ev w) = writes w @ [editContent w]
       \<and> \<not> isEditing (dispatch en ev w)
       \<and> dispatch en' ev' (dispatch en ev w) = dispatch en ev w
       \<and> content (run (init ''A'')
           [(en, DoubleClick), (en, Change ''AB''), (en, ev), (en', ev')]) = ''AB''
       \<and> writes (run (init ''A'')
           [(en, DoubleClick), (en, Change ''AB''), (en, ev), (en', ev')]) = [''AB'']
       \<and> \<not> isEditing (run (init ''A'')
           [(en, DoubleClick), (en, Change ''AB''), (en, ev), (en', ev')])"
proof -
  have step: "dispatch en ev u = handleTextSave u" if "mounted u" "isEditing u" for u
    using ev that by (rule commit_event_dispatch)
  have idle: "dispatch en' ev' u = u" if "\<not> isEditing u" for u
    using ev' that by (rule commit_event_idle)
  have 1: "dispatch en ev w = handleTextSave w" using step m ed .
  have 2: "dispatch en' ev' (handleTextSave w) = handleTextSave w"
    by (rule idle) (simp add: handleTextSave_def)
  let ?u = "dispatch en (Change ''AB'') (dispatch en DoubleClick (init ''A''))"
  have u: "mounted ?u" "isEditing ?u" "editContent ?u = ''AB''" "writes ?u = []"
    by (simp_all add: init_def handleDoubleClick_def handleTextChange_def)
  have 3: "dispatch en ev ?u = handleTextSave ?u" using step u(1,2) .
  have 4: "dispatch en' ev' (handleTextSave ?u) = handleTextSave ?u"
    by (rule idle) (simp add: handleTextSave_def)
  have r: "run (init ''A'') [(en, DoubleClick), (en, Change ''AB''), (en, ev), (en', ev')]
      = handleTextSave ?u"
    using 3 4 by simp
  show ?thesis
    unfolding r 1 2 using u(3,4) by (simp add: handleTextSave_def)
qed

theorem commit_writes_once_witness:
  "content (run (init ''A'') [(example_env, DoubleClick), (example_env, Change ''AB''),
       (example_env, KeyDown plainEnter 2 2), (example_env, Blur)]) = ''AB''
   \<and> writes (run (init ''A'') [(example_env, DoubleClick), (example_env, Change ''AB''),
       (example_env, KeyDown plainEnter 2 2), (example_env, Blur)]) = [''AB'']
   \<and> writes (run (init ''A'') [(example_env, DoubleClick), (example_env, Change ''AB''),
       (example_env, Blur), (example_env, KeyDown plainEnter 2 2)]) = [''AB'']"
proof -
  have i: "mounted (dispatch example_env DoubleClick (init ''A''))"
    "isEditing (dispatch example_env DoubleClick (init ''A''))"
    by (simp_all add: init_def handleDoubleClick_def)
  have k: "commit_event (KeyDown plainEnter 2 2)" "commit_event Blur"
    by (simp_all add: plainEnter_def)
  note a = commit_writes_once [OF i k(1) k(2), of example_env example_env]
  note b = commit_writes_once [OF i k(2) k(1), of example_env example_env]
  from a b show ?thesis by blast
qed

text \<open>
  C3. The claim asks that a double-click while editing leaves the draft unchanged.
  \<open>handleDoubleClick\<close> has no test of \<open>isEditing\<close>: it sets the draft to the stored
  content again. With stored content \<open>"A"\<close> and the draft changed to \<open>"AB"\<close>, the
  double-click keeps the mode and turns the draft back into \<open>"A"\<close>.
\<close>

theorem double_click_while_editing_resets_draft:
  "isEditing (run (init ''A'') [(example_env, DoubleClick), (example_env, Change ''AB'')])
   \<and> editContent (run (init ''A'')
        [(example_env, DoubleClick), (example_env, Change ''AB'')]) = ''AB''
   \<and> isEditing (run (init ''A'')
        [(example_env, DoubleClick), (example_env, Change ''AB''), (example_env, DoubleClick)])
   \<and> editContent (run (init ''A'')
        [(example_env, DoubleClick), (example_env, Change ''AB''), (example_env, DoubleClick)])
       = ''A''"
  by (simp add: init_def handleDoubleClick_def handleTextChange_def)

text \<open>
  C7. Escape in an edit session discards the draft (it becomes the stored content
  again), returns the session to idle and writes nothing to the store. After entering
  the edit on stored content \<open>c\<close>, any changes of the draft and Escape, the stored
  content is \<open>c\<close> and the store has not been written.
\<close>

theorem cancel_discards_draft:
  assumes m: "mounted w" and ed: "isEditing w" and k: "key e = ''Escape''"
  shows "\<not> isEditing (dispatch en (KeyDown e s t) w)
       \<and> editContent (dispatch en (KeyDown e s t) w) = content w
       \<and> content (dispatch en (KeyDown e s t) w) = content w
       \<and> writes (dispatch en (KeyDown e s t) w) = writes w
       \<and> content (run (init c) ((en, DoubleClick) #
           map (\<lambda>v. (en, Change v)) vs @ [(en, KeyDown e s t)])) = c
       \<and> writes (run (init c) ((en, DoubleClick) #
           map (\<lambda>v. (en, Change v)) vs @ [(en, KeyDown e s t)])) = []
       \<and> \<not> isEditing (run (init c) ((en, DoubleClick) #
           map (\<lambda>v. (en, Change v)) vs @ [(en, KeyDown e s t)]))"
proof -
  have esc: "dispatch en (KeyDown e s t) u = u\<lparr> editContent := content u, isEditing := False \<rparr>"
    if "mounted u" "isEditing u" for u
    using that k by (simp add: textareaKeyDown_def handleKeyDown_Escape)
  let ?d = "dispatch en DoubleClick (init c)"
  let ?u = "run ?d (map (\<lambda>v. (en, Change v)) vs)"
  have d: "mounted ?d" "isEditing ?d" "content ?d = c" "writes ?d = []"
    by (simp_all add: init_def handleDoubleClick_def)
  have u: "mounted ?u" "isEditing ?u" "content ?u = c" "writes ?u = []"
    using run_Changes [OF d(1) d(2), of en vs] d(3,4) by simp_all
  have r: "run (init c) ((en, DoubleClick) # map (\<lambda>v. (en, Change v)) vs @ [(en, KeyDown e s t)])
      = dispatch en (KeyDown e s t) ?u"
    by (simp add: run_append)
  show ?thesis
    unfolding r esc [OF m ed] esc [OF u(1) u(2)] using u(3,4) by simp
qed

theorem cancel_discards_draft_witness:
  "content (run (init ''A'') ((example_env, DoubleClick) #
       map (\<lambda>v. (example_env, Change v)) [''AB''] @ [(example_env, KeyDown escape 2 2)])) = ''A''
   \<and> writes (run (init ''A'') ((example_env, DoubleClick) #
       map (\<lambda>v. (example_env, Change v)) [''AB''] @ [(example_env, KeyDown escape 2 2)])) = []"
proof -
  have i: "mounted (dispatch example_env DoubleClick (init ''A''))"
    "isEditing (dispatch example_env DoubleClick (init ''A''))"
    by (simp_all add: init_def handleDoubleClick_def)
  have k: "key escape = ''Escape''" by (simp add: escape_def)
  from cancel_discards_draft [OF i k, of example_env 2 2 "''A''" "[''AB'']"]
  show ?thesis by blast
qed

text \<open>
  C8. While editing, Enter with Shift held puts a line break into the draft (in place of
  the textarea's selection), the session stays in editing, and nothing is committed or
  written; a plain Enter after it commits the draft with the line break. On \<open>"A"\<close>:
  Shift+Enter at the end, then \<open>"B"\<close> typed, then Enter, commits \<open>"A\nB"\<close>.
\<close>

theorem shift_enter_inserts_newline:
  assumes m: "mounted w" and ed: "isEditing w"
    and k: "key e = ''Enter''" and sh: "shiftKey e"
    and k': "key e' = ''Enter''" and sh': "\<not> shiftKey e'"
  shows "isEditing (dispatch en (KeyDown e s t) w)
       \<and> editContent (dispatch en (KeyDown e s t) w)
           = take s (editContent w) @ [CHR 0x0A] @ drop t (editContent w)
       \<and> content (dispatch en (KeyDown e s t) w) = content w
       \<and> writes (dispatch en (KeyDown e s t) w) = writes w
       \<and> content (dispatch en (KeyDown e' s' t') (dispatch en (KeyDown e s t) w))
           = take s (editContent w) @ [CHR 0x0A] @ drop t (editContent w)
       \<and> writes (dispatch en (KeyDown e' s' t') (dispatch en (KeyDown e s t) w))
           = writes w @ [take s (editContent w) @ [CHR 0x0A] @ drop t (editContent w)]
       \<and> \<not> isEditing (dispatch en (KeyDown e' s' t') (dispatch en (KeyDown e s t) w))
       \<and> content (run (init ''A'') [(en, DoubleClick), (en, KeyDown e 1 1),
             (en, Change [CHR ''A'', CHR 0x0A, CHR ''B'']), (en, KeyDown e' 3 3)])
           = [CHR ''A'', CHR 0x0A, CHR ''B'']"
proof -
  have 1: "dispatch en (KeyDown e s t) w
      = w\<lparr> editContent := take s (editContent w) @ [CHR 0x0A] @ drop t (editContent w) \<rparr>"
    using m ed k sh
    by (simp add: textareaKeyDown_def handleKeyDown_ShiftEnter handleTextChange_def
        insertLineBreak_def)
  have 2: "content (run (init ''A'') [(en, DoubleClick), (en, KeyDown e 1 1),
             (en, Change [CHR ''A'', CHR 0x0A, CHR ''B'']), (en, KeyDown e' 3 3)])
           = [CHR ''A'', CHR 0x0A, CHR ''B'']"
    using k sh k' sh'
    by (simp add: init_def handleDoubleClick_def textareaKeyDown_def handleKeyDown_ShiftEnter
        handleKeyDown_Enter handleTextChange_def handleTextSave_def)
  show ?thesis
    unfolding 1 using m ed k' sh' 2
    by (simp add: textareaKeyDown_def handleKeyDown_Enter handleTextSave_def)
qed

theorem shift_enter_inserts_newline_witness:
  "isEditing (dispatch example_env (KeyDown shiftEnter 1 1)
       (dispatch example_env DoubleClick (init ''A'')))
   \<and> editContent (dispatch example_env (KeyDown shiftEnter 1 1)
       (dispatch example_env DoubleClick (init ''A''))) = [CHR ''A'', CHR 0x0A]
   \<and> content (dispatch example_env (KeyDown plainEnter 2 2)
       (dispatch example_env (KeyDown shiftEnter 1 1)
         (dispatch example_env DoubleClick (init ''A'')))) = [CHR ''A'', CHR 0x0A]"
proof -
  let ?u = "dispatch example_env DoubleClick (init ''A'')"
  have i: "mounted ?u" "isEditing ?u"
    by (simp_all add: init_def handleDoubleClick_def)
  have k: "key shiftEnter = ''Enter''" "shiftKey shiftEnter"
    "key plainEnter = ''Enter''" "\<not> shiftKey plainEnter"
    by (simp_all add: shiftEnter_def plainEnter_def)
  have e: "take 1 (editContent ?u) @ [CHR 0x0A] @ drop 1 (editContent ?u) = [CHR ''A'', CHR 0x0A]"
    by (simp add: init_def handleDoubleClick_def)
  from shift_enter_inserts_newline [OF i k, of example_env 1 1 2 2, unfolded e]
  show ?thesis by blast
qed


section \<open>Animation: the typewriter units\<close>

lemma typewriter_forEach_eq:
  "typewriter_forEach cs i (ch, tln)
     = (ch @ map (\<lambda>c. Span [c] ''0'') cs, tln @ map reveal [i ..< i + length cs])"
proof (induction cs arbitrary: i ch tln)
  case Nil
  then show ?case by simp
next
  case (Cons c cs)
  have "i < i + length (c # cs)" by simp
  then have "[i ..< i + length (c # cs)] = i # [Suc i ..< i + length (c # cs)]"
    by (rule upt_conv_Cons)
  then have u: "[i ..< i + length (c # cs)] = i # [Suc i ..< Suc i + length cs]"
    by simp
  have "typewriter_forEach (c # cs) i (ch, tln)
      = typewriter_forEach cs (Suc i) (ch @ [Span [c] ''0''], tln @ [reveal i])"
    by (simp add: tl_to_def reveal_def)
  also have "\<dots> = ((ch @ [Span [c] ''0'']) @ map (\<lambda>c. Span [c] ''0'') cs,
      (tln @ [reveal i]) @ map reveal [Suc i ..< Suc i + length cs])"
    by (rule Cons.IH)
  finally show ?case unfolding u by simp
qed

lemma foldr_reveal:
  "0 \<le> d \<Longrightarrow>
   foldr (\<lambda>t d. max (tw_end t) d) (map reveal [0 ..< n]) d = max (real n * 0.05) d"
proof (induction n arbitrary: d)
  case 0
  then show ?case by simp
next
  case (Suc n)
  have e: "tw_end (reveal n) = real (Suc n) * 0.05"
    by (simp add: tw_end_def reveal_def algebra_simps)
  have p: "0 \<le> max (tw_end (reveal n)) d" using Suc.prems by simp
  have "foldr (\<lambda>t d. max (tw_end t) d) (map reveal [0 ..< Suc n]) d
      = foldr (\<lambda>t d. max (tw_end t) d) (map reveal [0 ..< n]) (max (tw_end (reveal n)) d)"
    by simp
  also have "\<dots> = max (real n * 0.05) (max (tw_end (reveal n)) d)"
    using p by (rule Suc.IH)
  also have "\<dots> = max (real (Suc n) * 0.05) d"
    unfolding e by (simp add: max_def)
  finally show ?case .
qed

lemma tl_duration_reveal: "tl_duration (map reveal [0 ..< n]) = real n * 0.05"
  by (simp add: tl_duration_def foldr_reveal)

text \<open>
  C6. When the typewriter preset is triggered and starts (the animated node is rendered
  and no animation is running) on content of length N, the node's children become
  exactly N spans, one per character in the order of the content, each with opacity 0;
  the timeline holds exactly N reveal units, unit \<open>i\<close> acting on span \<open>i\<close>, starting at
  \<open>i * 0.05\<close> seconds and lasting 0.05 seconds; the timeline lasts
  \<open>(N - 1) * 0.05 + 0.05\<close> seconds.
\<close>

theorem typewriter_units:
  assumes g: "gsapRef_current w" and a: "\<not> isAnimating w"
  shows "gsapChildren (playAnimation ''typewriter'' w) = map (\<lambda>c. Span [c] ''0'') (content w)
       \<and> length (gsapChildren (playAnimation ''typewriter'' w)) = length (content w)
       \<and> timelines (playAnimation ''typewriter'' w)
           = timelines w @ [map reveal [0 ..< length (content w)]]
       \<and> length (last (timelines (playAnimation ''typewriter'' w))) = length (content w)
       \<and> (\<forall>i < length (content w).
             tw_target (last (timelines (playAnimation ''typewriter'' w)) ! i) = SpanT i
           \<and> tw_start (last (timelines (playAnimation ''typewriter'' w)) ! i) = real i * 0.05
           \<and> tw_duration (last (timelines (playAnimation ''typewriter'' w)) ! i) = 0.05)
       \<and> tl_duration (last (timelines (playAnimation ''typewriter'' w)))
           = (real (length (content w)) - 1) * 0.05 + 0.05"
proof -
  have p: "playAnimation ''typewriter'' w
      = w\<lparr> isAnimating_cell := True,
            timelines := timelines w @ [map reveal [0 ..< length (content w)]],
            gsapChildren := map (\<lambda>c. Span [c] ''0'') (content w) \<rparr>"
    using g a by (simp add: playAnimation_def typewriter_forEach_eq)
  have d: "(real (length (content w)) - 1) * 0.05 + 0.05 = real (length (content w)) * 0.05"
    by (simp add: field_simps)
  show ?thesis
    unfolding p d by (simp add: tl_duration_reveal reveal_def)
qed

theorem typewriter_units_witness:
  "gsapChildren (playAnimation ''typewriter'' (init ''ab c''))
     = [Span ''a'' ''0'', Span ''b'' ''0'', Span '' '' ''0'', Span ''c'' ''0'']
   \<and> tl_duration (last (timelines (playAnimation ''typewriter'' (init ''ab c'')))) = 0.2"
proof -
  have i: "gsapRef_current (init ''ab c'')" "\<not> isAnimating (init ''ab c'')"
    by (simp_all add: init_def gsapRef_current_def)
  have c: "content (init ''ab c'') = ''ab c''" by (simp add: init_def)
  have e: "map (\<lambda>c. Span [c] ''0'') ''ab c''
      = [Span ''a'' ''0'', Span ''b'' ''0'', Span '' '' ''0'', Span ''c'' ''0'']"
    "(real (length ''ab c'') - 1) * 0.05 + 0.05 = 0.2"
    by simp_all
  from typewriter_units [OF i, unfolded c e] show ?thesis by blast
qed


section \<open>Animation: the busy guard\<close>

lemma up_calls_frame:
  "timelines (up_calls ls w) = timelines w
   \<and> isAnimating_cell (up_calls ls w) = isAnimating_cell w
   \<and> isAnimating (up_calls ls w) = isAnimating w"
  by (induction ls w rule: up_calls.induct) (simp_all add: handleMouseUp_def)

lemma handleMouseDown_frame:
  "timelines (handleMouseDown en e w) = timelines w
   \<and> isAnimating_cell (handleMouseDown en e w) = isAnimating_cell w
   \<and> isAnimating (handleMouseDown en e w) = isAnimating w"
  by (simp add: handleMouseDown_def Let_def split: option.split)

lemma textareaKeyDown_frame:
  "timelines (textareaKeyDown e s t w) = timelines w
   \<and> isAnimating_cell (textareaKeyDown e s t w) = isAnimating_cell w
   \<and> isAnimating (textareaKeyDown e s t w) = isAnimating w"
  by (simp add: textareaKeyDown_def handleKeyDown_def handleTextSave_def handleTextChange_def)

lemma dispatch_frame:
  assumes "\<And>a. ev \<noteq> Trigger a" and "\<And>i. ev \<noteq> Complete i"
  shows "timelines (dispatch en ev w) = timelines w
       \<and> isAnimating_cell (dispatch en ev w) = isAnimating_cell w"
  using assms
  by (cases ev)
    (auto simp add: handleDoubleClick_def handleMouseDown_frame handleTextChange_def
      textareaKeyDown_frame handleTextSave_def up_calls_frame render_def)

lemma playAnimation_busy: "isAnimating w \<Longrightarrow> playAnimation a w = w"
  by (simp add: playAnimation_def)

lemma playAnimation_idle: "\<not> gsapRef_current w \<Longrightarrow> playAnimation a w = w"
  by (simp add: playAnimation_def)

lemma playAnimation_run:
  assumes g: "gsapRef_current w" and n: "\<not> isAnimating w"
  shows "\<exists>ch tln. playAnimation a w
           = w\<lparr> isAnimating_cell := True, timelines := timelines w @ [tln],
                 gsapChildren := ch \<rparr>"
proof -
  have c: "(\<not> gsapRef_current w \<or> isAnimating w) = False" using g n by simp
  show ?thesis
    unfolding playAnimation_def Let_def c if_False case_prod_beta
    by (rule exI, rule exI, rule refl)
qed

lemma playAnimation_start:
  assumes "gsapRef_current w" and "\<not> isAnimating w"
  shows "isAnimating_cell (playAnimation a w)
       \<and> (\<exists>tln. timelines (playAnimation a w) = timelines w @ [tln])"
proof -
  from playAnimation_run [OF assms, of a] obtain ch tln where
    "playAnimation a w
       = w\<lparr> isAnimating_cell := True, timelines := timelines w @ [tln], gsapChildren := ch \<rparr>"
    by blast
  then show ?thesis by simp
qed

lemma playAnimation_cases:
  "playAnimation a w = w
   \<or> (\<not> isAnimating w \<and> isAnimating_cell (playAnimation a w)
      \<and> (\<exists>tln. timelines (playAnimation a w) = timelines w @ [tln]))"
proof (cases "gsapRef_current w")
  case False
  then show ?thesis by (simp add: playAnimation_idle)
next
  case g: True
  show ?thesis
  proof (cases "isAnimating w")
    case True
    then show ?thesis by (simp add: playAnimation_busy)
  next
    case False
    with g playAnimation_start [of w a] show ?thesis by simp
  qed
qed

text \<open>
  With a render before each event the guard holds: a trigger from a render that follows
  the start of a timeline is refused, its completion clears the cell, and the render
  after that lets the next trigger in.
\<close>

lemma trigger_after_render_refused:
  assumes "mounted w" and "isAnimating_cell w"
  shows "dispatch en (Trigger a) (dispatch en Render w) = dispatch en Render w"
  using assms by (simp add: render_def playAnimation_busy)

lemma onComplete_resets:
  assumes "i < length (timelines w)"
  shows "\<not> isAnimating_cell (dispatch en (Complete i) w)
       \<and> length (timelines (dispatch en (Complete i) w)) = length (timelines w) - 1
       \<and> (mounted w \<longrightarrow> \<not> isAnimating (dispatch en Render (dispatch en (Complete i) w)))"
  using assms by (auto simp add: onComplete_def render_def)

lemma reset_only_onComplete:
  assumes "isAnimating_cell w" and "\<not> isAnimating_cell (dispatch en ev w)"
  shows "\<exists>i. ev = Complete i \<and> i < length (timelines w)"
proof (cases ev)
  case (Trigger a)
  with assms playAnimation_cases [of a w] show ?thesis by auto
next
  case (Complete i)
  with assms show ?thesis by (simp add: onComplete_def split: if_splits)
qed (use assms dispatch_frame [of ev en w] in simp_all)

lemma one_playback_step:
  assumes "one_playback w"
  shows "one_playback (dispatch en ev (dispatch en Render w))"
proof -
  let ?r = "dispatch en Render w"
  have r: "timelines ?r = timelines w" "isAnimating_cell ?r = isAnimating_cell w"
    "mounted ?r = mounted w" "mounted w \<Longrightarrow> isAnimating ?r = isAnimating_cell w"
    by (simp_all add: render_def)
  have ir: "one_playback ?r" using assms r(1,2) by (simp add: one_playback_def)
  show ?thesis
  proof (cases ev)
    case (Trigger a)
    from playAnimation_cases [of a ?r] show ?thesis
    proof
      assume "playAnimation a ?r = ?r"
      with ir Trigger show ?thesis by simp
    next
      assume h: "\<not> isAnimating ?r \<and> isAnimating_cell (playAnimation a ?r)
        \<and> (\<exists>tln. timelines (playAnimation a ?r) = timelines ?r @ [tln])"
      have "playAnimation a ?r = ?r \<or> timelines ?r = []"
      proof (cases "mounted w")
        case True
        with h r(4) have "\<not> isAnimating_cell w" by simp
        with assms r(1) show ?thesis by (simp add: one_playback_def)
      next
        case False
        then have "\<not> gsapRef_current ?r" by (simp add: gsapRef_current_def)
        then show ?thesis by (simp add: playAnimation_idle)
      qed
      then show ?thesis
      proof
        assume "playAnimation a ?r = ?r"
        with ir Trigger show ?thesis by simp
      next
        assume "timelines ?r = []"
        with h Trigger show ?thesis by (auto simp add: one_playback_def)
      qed
    qed
  next
    case (Complete i)
    with ir show ?thesis
      by (auto simp add: one_playback_def onComplete_def)
  qed (use ir dispatch_frame [of ev en ?r] in \<open>simp_all add: one_playback_def\<close>)
qed

lemma one_playback_run_rendered: "one_playback w \<Longrightarrow> one_playback (run_rendered w es)"
proof (induction es arbitrary: w)
  case Nil
  then show ?case by simp
next
  case (Cons x es)
  obtain en ev where x: "x = (en, ev)" by (cases x)
  from Cons.prems have "one_playback (dispatch en ev (dispatch en Render w))"
    by (rule one_playback_step)
  from Cons.IH [OF this] show ?case by (simp add: x)
qed

lemma busy_guard_between_renders:
  "length (timelines (run_rendered (init c) es)) \<le> 1
   \<and> (isAnimating_cell (run_rendered (init c) es) \<or> timelines (run_rendered (init c) es) = [])"
proof -
  have "one_playback (init c)" by (simp add: one_playback_def init_def)
  then have "one_playback (run_rendered (init c) es)" by (rule one_playback_run_rendered)
  then show ?thesis by (simp add: one_playback_def)
qed





end
